theory Spec2Isabelle
  imports Complex_Main "HOL-Library.AList" "HOL-Library.Sublist"
begin

section \<open>Python dictionaries\<close>

text \<open>
  A Python \<^verbatim>\<open>dict\<close> with \<^verbatim>\<open>str\<close> keys is an association list in insertion order.
  \<^verbatim>\<open>d.get(k)\<close> and \<^verbatim>\<open>d[k] = v\<close>: an existing key keeps its place, a new key goes
  last. Strings are byte strings (the UTF-8 encoding of the text): a \<^verbatim>\<open>str\<close> that
  UTF-8 cannot encode (one with a lone surrogate) is not a value of the model.
\<close>

definition dict_get :: "(string \<times> 'v) list \<Rightarrow> string \<Rightarrow> 'v option" where
  "dict_get d k = map_of d k"

definition dict_set :: "(string \<times> 'v) list \<Rightarrow> string \<Rightarrow> 'v \<Rightarrow> (string \<times> 'v) list" where
  "dict_set d k v = AList.update k v d"

definition dict_keys :: "(string \<times> 'v) list \<Rightarrow> string list" where
  "dict_keys d = map fst d"

text \<open>
  The dict display \<^verbatim>\<open>{..., **extra}\<close>: the entries of \<open>extra\<close> are stored one by one.
  \<open>dict_of_pairs\<close> is the dict that \<^verbatim>\<open>json.loads\<close> builds from the members of an
  object: of two members with one name the later value stands, at the earlier place.
\<close>

definition dict_merge :: "(string \<times> 'v) list \<Rightarrow> (string \<times> 'v) list \<Rightarrow> (string \<times> 'v) list" where
  "dict_merge d extra = foldl (\<lambda>acc (k, v). dict_set acc k v) d extra"

definition dict_of_pairs :: "(string \<times> 'v) list \<Rightarrow> (string \<times> 'v) list" where
  "dict_of_pairs ps = dict_merge [] ps"

section \<open>Command fingerprinting\<close>

text \<open>
  \<^verbatim>\<open>hashlib.sha256(...).hexdigest()\<close> is a library function; it is the parameter
  \<open>hexdigest\<close> of everything that hashes.
\<close>

definition sha256_text :: "(string \<Rightarrow> string) \<Rightarrow> string \<Rightarrow> string" where
  "sha256_text hexdigest s = hexdigest s"

text \<open>\<^verbatim>\<open>sep.join(xs)\<close>\<close>

fun join :: "string \<Rightarrow> string list \<Rightarrow> string" where
  "join sep [] = []"
| "join sep [x] = x"
| "join sep (x # y # ys) = x @ sep @ join sep (y # ys)"

definition newline :: string where
  "newline = [CHR 0x0A]"

definition stable_cmd_text :: "string list \<Rightarrow> string" where
  "stable_cmd_text argv = join newline argv"

definition command_hash :: "(string \<Rightarrow> string) \<Rightarrow> string list \<Rightarrow> string" where
  "command_hash hexdigest argv = sha256_text hexdigest (stable_cmd_text argv)"

text \<open>The decimal text of an integer, as an f-string prints it.\<close>

definition digit_char :: "nat \<Rightarrow> char" where
  "digit_char d = char_of (48 + d)"

function str_nat :: "nat \<Rightarrow> string" where
  "str_nat n = (if n < 10 then [digit_char n] else str_nat (n div 10) @ [digit_char (n mod 10)])"
  by pat_completeness auto
termination
  by (relation "measure (\<lambda>n. n)") auto

definition str_int :: "int \<Rightarrow> string" where
  "str_int i = (if i < 0 then CHR ''-'' # str_nat (nat (- i)) else str_nat (nat i))"

text \<open>
  \<^verbatim>\<open>new_confirmation_id\<close>: \<open>resolved_root\<close> is the text of \<^verbatim>\<open>root.resolve()\<close> and
  \<open>now\<close> the value \<^verbatim>\<open>_now()\<close> returns during the call.
\<close>

definition confirmation_seed :: "string \<Rightarrow> int \<Rightarrow> string list \<Rightarrow> string" where
  "confirmation_seed resolved_root now argv =
     resolved_root @ newline @ str_int now @ newline @ stable_cmd_text argv"

definition new_confirmation_id ::
  "(string \<Rightarrow> string) \<Rightarrow> string \<Rightarrow> int \<Rightarrow> string list \<Rightarrow> string" where
  "new_confirmation_id hexdigest resolved_root now argv =
     take 16 (sha256_text hexdigest (confirmation_seed resolved_root now argv))"

section \<open>Python values and JSON\<close>

text \<open>
  Two kinds of values. \<open>json\<close> is what \<^verbatim>\<open>json.loads\<close> returns, and so what the two
  files of the store hold: the model keeps the parsed value in place of the text.
  \<open>pyval\<close> is a value a caller passes for a field annotated \<^verbatim>\<open>Any\<close> (the
  classification of a record, the result of an execution): it may also be a tuple, a
  dict keyed by \<^verbatim>\<open>int\<close>, \<^verbatim>\<open>bool\<close> or \<^verbatim>\<open>None\<close>, or a value that \<^verbatim>\<open>json.dumps\<close>
  refuses, for which \<^verbatim>\<open>bytes\<close> stands here (as a value and as a key). A float is
  not-a-number, an infinity or a rational; dict keys that are floats are left out.
\<close>

datatype pyfloat = FNaN | FInf | FNegInf | FFinite rat

datatype json =
    JNull
  | JBool bool
  | JInt int
  | JFloat pyfloat
  | JStr string
  | JList "json list"
  | JObj "(string \<times> json) list"

datatype pykey = KStr string | KInt int | KBool bool | KNone | KBytes string

datatype pyval =
    PNone
  | PBool bool
  | PInt int
  | PFloat pyfloat
  | PStr string
  | PBytes string
  | PList "pyval list"
  | PTuple "pyval list"
  | PDict "(pykey \<times> pyval) list"

type_synonym py_dict = "(string \<times> json) list"

type_synonym any_dict = "(string \<times> pyval) list"

text \<open>A \<^verbatim>\<open>dict[str, Any]\<close> as a value.\<close>

definition str_dict :: "any_dict \<Rightarrow> pyval" where
  "str_dict d = PDict (map (\<lambda>(k, v). (KStr k, v)) d)"

text \<open>
  \<^verbatim>\<open>json.dumps\<close>: it raises \<^verbatim>\<open>TypeError\<close> on a value or a key it cannot write,
  wherever it stands (\<open>writable\<close>), and else writes a text that \<^verbatim>\<open>json.loads\<close> reads
  as \<open>json_of\<close>: a tuple becomes a list, a key becomes its text.
\<close>

fun key_writable :: "pykey \<Rightarrow> bool" where
  "key_writable (KBytes s) = False"
| "key_writable _ = True"

fun key_text :: "pykey \<Rightarrow> string" where
  "key_text (KStr s) = s"
| "key_text (KInt n) = str_int n"
| "key_text (KBool b) = (if b then ''true'' else ''false'')"
| "key_text KNone = ''null''"
| "key_text (KBytes s) = []"

fun writable :: "pyval \<Rightarrow> bool" where
  "writable (PBytes s) = False"
| "writable (PList xs) = list_all writable xs"
| "writable (PTuple xs) = list_all writable xs"
| "writable (PDict kvs) = list_all (\<lambda>(k, v). key_writable k \<and> writable v) kvs"
| "writable _ = True"

fun json_of :: "pyval \<Rightarrow> json" where
  "json_of PNone = JNull"
| "json_of (PBool b) = JBool b"
| "json_of (PInt n) = JInt n"
| "json_of (PFloat f) = JFloat f"
| "json_of (PStr s) = JStr s"
| "json_of (PBytes s) = JNull"
| "json_of (PList xs) = JList (map json_of xs)"
| "json_of (PTuple xs) = JList (map json_of xs)"
| "json_of (PDict kvs) = JObj (dict_of_pairs (map (\<lambda>(k, v). (key_text k, json_of v)) kvs))"

definition json_of_dict :: "any_dict \<Rightarrow> py_dict" where
  "json_of_dict d = dict_of_pairs (map (\<lambda>(k, v). (k, json_of v)) d)"

text \<open>A value read from a file, as the Python value it is.\<close>

fun py_of_json :: "json \<Rightarrow> pyval" where
  "py_of_json JNull = PNone"
| "py_of_json (JBool b) = PBool b"
| "py_of_json (JInt n) = PInt n"
| "py_of_json (JFloat f) = PFloat f"
| "py_of_json (JStr s) = PStr s"
| "py_of_json (JList xs) = PList (map py_of_json xs)"
| "py_of_json (JObj kvs) = PDict (map (\<lambda>(k, v). (KStr k, py_of_json v)) kvs)"

definition any_dict_of :: "py_dict \<Rightarrow> any_dict" where
  "any_dict_of kvs = map (\<lambda>(k, v). (k, py_of_json v)) kvs"

text \<open>
  The values that are JSON already: \<^verbatim>\<open>None\<close>, \<^verbatim>\<open>bool\<close>, \<^verbatim>\<open>int\<close>, \<^verbatim>\<open>str\<close>, a
  float other than not-a-number (which Python's \<^verbatim>\<open>==\<close> tells from itself), lists of
  such values and dicts of such values under \<^verbatim>\<open>str\<close> keys (distinct, as the keys of
  a Python dict are).
\<close>

fun json_value :: "pyval \<Rightarrow> bool" where
  "json_value PNone = True"
| "json_value (PBool b) = True"
| "json_value (PInt n) = True"
| "json_value (PFloat f) = (f \<noteq> FNaN)"
| "json_value (PStr s) = True"
| "json_value (PBytes s) = False"
| "json_value (PList xs) = list_all json_value xs"
| "json_value (PTuple xs) = False"
| "json_value (PDict kvs) =
     (distinct (map fst kvs)
      \<and> list_all (\<lambda>(k, v). (case k of KStr s \<Rightarrow> True | _ \<Rightarrow> False) \<and> json_value v) kvs)"

definition json_dict :: "any_dict \<Rightarrow> bool" where
  "json_dict d = json_value (str_dict d)"

text \<open>
  \<open>AttributeError\<close>, \<open>TypeError\<close>, \<open>ValueError\<close> and \<open>OverflowError\<close> are the
  exceptions the source can raise. \<open>IllTyped\<close> is no exception of the source: Python
  checks no annotation, so a stored field of the wrong type would travel on inside the
  \<^verbatim>\<open>Confirmation\<close> object that \<^verbatim>\<open>get\<close> builds. The records below are typed by the
  annotations and cannot hold such a value; \<^verbatim>\<open>get\<close> stops there with \<open>IllTyped\<close>.
\<close>

datatype error = AttributeError | TypeError | ValueError | OverflowError | IllTyped

definition bind :: "error + 'a \<Rightarrow> ('a \<Rightarrow> error + 'b) \<Rightarrow> error + 'b" where
  "bind m f = (case m of Inl e \<Rightarrow> Inl e | Inr x \<Rightarrow> f x)"

text \<open>Python truth value of a value read from a file (\<^verbatim>\<open>if not raw\<close>, \<^verbatim>\<open>x or {}\<close>).\<close>

fun truthy :: "json \<Rightarrow> bool" where
  "truthy JNull = False"
| "truthy (JBool b) = b"
| "truthy (JInt n) = (n \<noteq> 0)"
| "truthy (JFloat f) = (f \<noteq> FFinite 0)"
| "truthy (JStr s) = (s \<noteq> [])"
| "truthy (JList xs) = (xs \<noteq> [])"
| "truthy (JObj kv) = (kv \<noteq> [])"

subsection \<open>\<^verbatim>\<open>int(x)\<close>\<close>

text \<open>
  \<^verbatim>\<open>int\<close> of a \<^verbatim>\<open>str\<close>: white space around, one sign, decimal digits with single
  underscores between them; anything else is a \<^verbatim>\<open>ValueError\<close>. ASCII only: digits
  and spaces beyond ASCII, and the interpreter's limit on the number of digits, are
  left out.
\<close>

definition is_space :: "char \<Rightarrow> bool" where
  "is_space ch = (ch \<in> set [CHR 0x09, CHR 0x0A, CHR 0x0B, CHR 0x0C, CHR 0x0D,
                             CHR 0x1C, CHR 0x1D, CHR 0x1E, CHR 0x1F, CHR 0x20])"

definition strip :: "string \<Rightarrow> string" where
  "strip s = rev (dropWhile is_space (rev (dropWhile is_space s)))"

definition is_digit :: "char \<Rightarrow> bool" where
  "is_digit ch = (ch \<in> set ''0123456789'')"

definition digit_val :: "char \<Rightarrow> nat" where
  "digit_val ch = of_char ch - 48"

fun parse_digits :: "nat \<Rightarrow> string \<Rightarrow> nat option" where
  "parse_digits acc [] = Some acc"
| "parse_digits acc [c] = (if is_digit c then Some (10 * acc + digit_val c) else None)"
| "parse_digits acc (c # d # cs) =
     (if is_digit c then parse_digits (10 * acc + digit_val c) (d # cs)
      else if c = CHR ''_'' \<and> is_digit d then parse_digits acc (d # cs)
      else None)"

definition parse_nat :: "string \<Rightarrow> nat option" where
  "parse_nat s =
     (case s of
        [] \<Rightarrow> None
      | c # cs \<Rightarrow> if is_digit c then parse_digits (digit_val c) cs else None)"

definition int_of_str :: "string \<Rightarrow> int option" where
  "int_of_str s =
     (case strip s of
        [] \<Rightarrow> None
      | c # cs \<Rightarrow>
          if c = CHR ''-'' then map_option (\<lambda>n. - int n) (parse_nat cs)
          else if c = CHR ''+'' then map_option int (parse_nat cs)
          else map_option int (parse_nat (c # cs)))"

text \<open>\<^verbatim>\<open>int\<close> of a float cuts towards zero.\<close>

definition truncate :: "rat \<Rightarrow> int" where
  "truncate q = (if q < 0 then - \<lfloor>- q\<rfloor> else \<lfloor>q\<rfloor>)"

fun py_int :: "json \<Rightarrow> error + int" where
  "py_int (JInt n) = Inr n"
| "py_int (JBool b) = Inr (if b then 1 else 0)"
| "py_int (JFloat FNaN) = Inl ValueError"
| "py_int (JFloat FInf) = Inl OverflowError"
| "py_int (JFloat FNegInf) = Inl OverflowError"
| "py_int (JFloat (FFinite q)) = Inr (truncate q)"
| "py_int (JStr s) = (case int_of_str s of None \<Rightarrow> Inl ValueError | Some n \<Rightarrow> Inr n)"
| "py_int _ = Inl TypeError"

section \<open>The confirmation record\<close>

record Preconditions =
  expected_head :: "string option"
  expected_branch :: "string option"
  require_clean :: bool
  require_no_conflicts :: bool

record Confirmation =
  confirmation_id :: string
  root :: string
  args :: "string list"
  classification :: any_dict
  cmd_hash :: string
  created_at :: int
  expires_at :: int
  max_uses :: int
  used :: int
  preconditions :: Preconditions

text \<open>The clock reading \<^verbatim>\<open>_now()\<close> is the argument \<open>now\<close>.\<close>

definition is_expired :: "int \<Rightarrow> Confirmation \<Rightarrow> bool" where
  "is_expired now c = (now > expires_at c)"

definition can_use :: "int \<Rightarrow> Confirmation \<Rightarrow> bool" where
  "can_use now c = ((\<not> is_expired now c) \<and> used c < max_uses c)"

subsection \<open>\<^verbatim>\<open>asdict\<close> and the keyword constructors\<close>

definition py_of_opt_str :: "string option \<Rightarrow> pyval" where
  "py_of_opt_str x = (case x of None \<Rightarrow> PNone | Some s \<Rightarrow> PStr s)"

definition asdict_Preconditions :: "Preconditions \<Rightarrow> any_dict" where
  "asdict_Preconditions p =
     [(''expected_head'', py_of_opt_str (expected_head p)),
      (''expected_branch'', py_of_opt_str (expected_branch p)),
      (''require_clean'', PBool (require_clean p)),
      (''require_no_conflicts'', PBool (require_no_conflicts p))]"

definition asdict :: "Confirmation \<Rightarrow> any_dict" where
  "asdict c =
     [(''confirmation_id'', PStr (confirmation_id c)),
      (''root'', PStr (root c)),
      (''args'', PList (map PStr (args c))),
      (''classification'', str_dict (classification c)),
      (''cmd_hash'', PStr (cmd_hash c)),
      (''created_at'', PInt (created_at c)),
      (''expires_at'', PInt (expires_at c)),
      (''max_uses'', PInt (max_uses c)),
      (''used'', PInt (used c)),
      (''preconditions'', str_dict (asdict_Preconditions (preconditions c)))]"

text \<open>
  Reading a stored value at the type its field is annotated with. The classification
  is the stored object as it is: \<open>any_dict_of\<close> only changes its type.
\<close>

fun as_str :: "json \<Rightarrow> error + string" where
  "as_str (JStr s) = Inr s"
| "as_str _ = Inl IllTyped"

fun as_opt_str :: "json \<Rightarrow> error + string option" where
  "as_opt_str JNull = Inr None"
| "as_opt_str (JStr s) = Inr (Some s)"
| "as_opt_str _ = Inl IllTyped"

fun as_bool :: "json \<Rightarrow> error + bool" where
  "as_bool (JBool b) = Inr b"
| "as_bool _ = Inl IllTyped"

fun as_int :: "json \<Rightarrow> error + int" where
  "as_int (JInt n) = Inr n"
| "as_int _ = Inl IllTyped"

fun as_dict :: "json \<Rightarrow> error + any_dict" where
  "as_dict (JObj kv) = Inr (any_dict_of kv)"
| "as_dict _ = Inl IllTyped"

fun as_str_list_items :: "json list \<Rightarrow> error + string list" where
  "as_str_list_items [] = Inr []"
| "as_str_list_items (x # xs) =
     bind (as_str x) (\<lambda>s. bind (as_str_list_items xs) (\<lambda>ss. Inr (s # ss)))"

fun as_str_list :: "json \<Rightarrow> error + string list" where
  "as_str_list (JList xs) = as_str_list_items xs"
| "as_str_list _ = Inl IllTyped"

text \<open>
  A keyword argument with a default, and one without: a missing required keyword is a
  \<^verbatim>\<open>TypeError\<close> of the generated \<^verbatim>\<open>__init__\<close>.
\<close>

definition kw_default :: "py_dict \<Rightarrow> string \<Rightarrow> (json \<Rightarrow> error + 'a) \<Rightarrow> 'a \<Rightarrow> error + 'a" where
  "kw_default kw k dec d = (case dict_get kw k of None \<Rightarrow> Inr d | Some v \<Rightarrow> dec v)"

definition kw_required :: "py_dict \<Rightarrow> string \<Rightarrow> (json \<Rightarrow> error + 'a) \<Rightarrow> error + 'a" where
  "kw_required kw k dec = (case dict_get kw k of None \<Rightarrow> Inl TypeError | Some v \<Rightarrow> dec v)"

definition Preconditions_fields :: "string list" where
  "Preconditions_fields =
     [''expected_head'', ''expected_branch'', ''require_clean'', ''require_no_conflicts'']"

definition Confirmation_fields :: "string list" where
  "Confirmation_fields =
     [''confirmation_id'', ''root'', ''args'', ''classification'', ''cmd_hash'',
      ''created_at'', ''expires_at'', ''max_uses'', ''used'', ''preconditions'']"

text \<open>\<^verbatim>\<open>Preconditions(**kw)\<close>: an unexpected keyword is a \<^verbatim>\<open>TypeError\<close>.\<close>

definition Preconditions_init :: "py_dict \<Rightarrow> error + Preconditions" where
  "Preconditions_init kw =
     (if \<not> list_all (\<lambda>k. k \<in> set Preconditions_fields) (dict_keys kw) then Inl TypeError
      else
        bind (kw_default kw ''expected_head'' as_opt_str None) (\<lambda>h.
        bind (kw_default kw ''expected_branch'' as_opt_str None) (\<lambda>b.
        bind (kw_default kw ''require_clean'' as_bool False) (\<lambda>cl.
        bind (kw_default kw ''require_no_conflicts'' as_bool True) (\<lambda>nc.
          Inr \<lparr>expected_head = h, expected_branch = b,
               require_clean = cl, require_no_conflicts = nc\<rparr>)))))"

text \<open>
  \<^verbatim>\<open>Confirmation(**raw)\<close> after \<^verbatim>\<open>raw["preconditions"]\<close> has been set to the object
  \<open>pre\<close>: the key \<^verbatim>\<open>preconditions\<close> is then present whatever \<open>raw\<close> held.
\<close>

definition Confirmation_init :: "py_dict \<Rightarrow> Preconditions \<Rightarrow> error + Confirmation" where
  "Confirmation_init kw pre =
     (if \<not> list_all (\<lambda>k. k \<in> set Confirmation_fields) (dict_keys kw) then Inl TypeError
      else if \<not> list_all (\<lambda>k. dict_get kw k \<noteq> None)
           [''confirmation_id'', ''root'', ''args'', ''classification'', ''cmd_hash'',
            ''created_at'', ''expires_at''] then Inl TypeError
      else
        bind (kw_required kw ''confirmation_id'' as_str) (\<lambda>i.
        bind (kw_required kw ''root'' as_str) (\<lambda>r.
        bind (kw_required kw ''args'' as_str_list) (\<lambda>a.
        bind (kw_required kw ''classification'' as_dict) (\<lambda>cl.
        bind (kw_required kw ''cmd_hash'' as_str) (\<lambda>h.
        bind (kw_required kw ''created_at'' as_int) (\<lambda>ca.
        bind (kw_required kw ''expires_at'' as_int) (\<lambda>ea.
        bind (kw_default kw ''max_uses'' as_int 1) (\<lambda>mu.
        bind (kw_default kw ''used'' as_int 0) (\<lambda>u.
          Inr \<lparr>confirmation_id = i, root = r, args = a, classification = cl,
               cmd_hash = h, created_at = ca, expires_at = ea, max_uses = mu,
               used = u, preconditions = pre\<rparr>))))))))))"

text \<open>
  The record as \<^verbatim>\<open>json.dumps\<close> writes it and \<^verbatim>\<open>json.loads\<close> reads it: only the
  classification, the one field of type \<^verbatim>\<open>Any\<close>, can differ.
\<close>

definition reload :: "Confirmation \<Rightarrow> Confirmation" where
  "reload c = c\<lparr>classification := any_dict_of (json_of_dict (classification c))\<rparr>"

text \<open>
  The entry of a record in the durable map: \<^verbatim>\<open>asdict\<close> as \<^verbatim>\<open>json.dumps\<close> writes
  it, field by field.
\<close>

definition stored_Preconditions :: "Preconditions \<Rightarrow> py_dict" where
  "stored_Preconditions p =
     [(''expected_head'', (case expected_head p of None \<Rightarrow> JNull | Some s \<Rightarrow> JStr s)),
      (''expected_branch'', (case expected_branch p of None \<Rightarrow> JNull | Some s \<Rightarrow> JStr s)),
      (''require_clean'', JBool (require_clean p)),
      (''require_no_conflicts'', JBool (require_no_conflicts p))]"

definition stored_entry :: "Confirmation \<Rightarrow> py_dict" where
  "stored_entry c =
     [(''confirmation_id'', JStr (confirmation_id c)),
      (''root'', JStr (root c)),
      (''args'', JList (map JStr (args c))),
      (''classification'', JObj (json_of_dict (classification c))),
      (''cmd_hash'', JStr (cmd_hash c)),
      (''created_at'', JInt (created_at c)),
      (''expires_at'', JInt (expires_at c)),
      (''max_uses'', JInt (max_uses c)),
      (''used'', JInt (used c)),
      (''preconditions'', JObj (stored_Preconditions (preconditions c)))]"

section \<open>The file store\<close>

text \<open>
  \<open>db_file\<close> is the object in \<^verbatim>\<open>confirmations.json\<close> (written only by
  \<^verbatim>\<open>__init__\<close> and \<^verbatim>\<open>_save\<close>), \<open>audit_file\<close> the lines of \<^verbatim>\<open>audit.jsonl\<close>,
  oldest first.
\<close>

record store =
  db_file :: py_dict
  audit_file :: "py_dict list"

text \<open>
  A method of the store returns or raises, and leaves the files in some state either
  way.
\<close>

datatype outcome = Returned | Raised error

definition files_after :: "outcome \<times> store \<Rightarrow> store" where
  "files_after r = snd r"

text \<open>\<^verbatim>\<open>__init__\<close> on a repository with no store yet.\<close>

definition init_store :: store where
  "init_store = \<lparr>db_file = [], audit_file = []\<rparr>"

definition load :: "store \<Rightarrow> py_dict" where
  "load s = db_file s"

text \<open>
  \<^verbatim>\<open>_save\<close> of a dict whose values \<^verbatim>\<open>json.dumps\<close> has accepted: it writes a
  temporary file and renames it over the map, in one step.
\<close>

definition save :: "store \<Rightarrow> py_dict \<Rightarrow> store" where
  "save s data = s\<lparr>db_file := data\<rparr>"

text \<open>
  \<^verbatim>\<open>audit\<close>. The file is opened for appending, then \<^verbatim>\<open>json.dumps\<close> runs: when it
  raises, nothing has been written.
\<close>

definition audit_line :: "int \<Rightarrow> string \<Rightarrow> string \<Rightarrow> any_dict option \<Rightarrow> any_dict" where
  "audit_line now action cid extra =
     dict_merge
       [(''ts'', PInt now), (''action'', PStr action), (''confirmation_id'', PStr cid)]
       (case extra of None \<Rightarrow> [] | Some e \<Rightarrow> e)"

definition audit ::
  "store \<Rightarrow> int \<Rightarrow> string \<Rightarrow> string \<Rightarrow> any_dict option \<Rightarrow> outcome \<times> store" where
  "audit s now action cid extra =
     (let line = audit_line now action cid extra in
      if \<not> writable (str_dict line) then (Raised TypeError, s)
      else (Returned, s\<lparr>audit_file := audit_file s @ [json_of_dict line]\<rparr>))"

text \<open>
  \<^verbatim>\<open>put\<close> in its two writes. \<open>put_save\<close> is the call up to the return of
  \<^verbatim>\<open>_save\<close>: \<^verbatim>\<open>data[c.confirmation_id] = asdict(c)\<close>, then \<^verbatim>\<open>json.dumps(data)\<close>,
  which has nothing to refuse in the entries that came from the file and raises on the
  new entry before anything is written when the classification holds a value it
  cannot write. \<open>put\<close> goes on to the audit line.
\<close>

definition put_save :: "store \<Rightarrow> Confirmation \<Rightarrow> outcome \<times> store" where
  "put_save s c =
     (let data = load s; entry = asdict c in
      if \<not> writable (str_dict entry) then (Raised TypeError, s)
      else (Returned, save s (dict_set data (confirmation_id c) (json_of (str_dict entry)))))"

definition put :: "store \<Rightarrow> Confirmation \<Rightarrow> int \<Rightarrow> outcome \<times> store" where
  "put s c now =
     (case put_save s c of
        (Raised e, s') \<Rightarrow> (Raised e, s')
      | (Returned, s') \<Rightarrow>
          audit s' now ''proposed'' (confirmation_id c)
            (Some [(''classification'', str_dict (classification c))]))"

text \<open>\<^verbatim>\<open>raw.get("preconditions") or {}\<close>, which \<^verbatim>\<open>**\<close> then needs to be a mapping.\<close>

definition preconditions_kwargs :: "py_dict \<Rightarrow> error + py_dict" where
  "preconditions_kwargs raw =
     (case dict_get raw ''preconditions'' of
        None \<Rightarrow> Inr []
      | Some p \<Rightarrow>
          if \<not> truthy p then Inr []
          else (case p of JObj kw \<Rightarrow> Inr kw | _ \<Rightarrow> Inl TypeError))"

text \<open>The part of \<^verbatim>\<open>get\<close> after the lookup: from the stored object to the record.\<close>

definition Confirmation_of_raw :: "py_dict \<Rightarrow> error + Confirmation" where
  "Confirmation_of_raw raw =
     bind (preconditions_kwargs raw) (\<lambda>kw.
     bind (Preconditions_init kw) (\<lambda>pre.
       Confirmation_init raw pre))"

definition get :: "store \<Rightarrow> string \<Rightarrow> error + Confirmation option" where
  "get s cid =
     (case dict_get (load s) cid of
        None \<Rightarrow> Inr None
      | Some raw \<Rightarrow>
          if \<not> truthy raw then Inr None
          else (case raw of
                  JObj kw \<Rightarrow> bind (Confirmation_of_raw kw) (\<lambda>c. Inr (Some c))
                | _ \<Rightarrow> Inl AttributeError))"

text \<open>
  \<^verbatim>\<open>mark_used\<close>. What it raises before \<^verbatim>\<open>_save\<close> leaves the files as they were;
  when \<^verbatim>\<open>audit\<close> raises, on a result that \<^verbatim>\<open>json.dumps\<close> cannot write, the map
  already holds the raised counter and the audit file has no line for it.
\<close>

definition mark_used :: "store \<Rightarrow> Confirmation \<Rightarrow> any_dict \<Rightarrow> int \<Rightarrow> outcome \<times> store" where
  "mark_used s c result now =
     (let data = load s in
      case dict_get data (confirmation_id c) of
        None \<Rightarrow> (Returned, s)
      | Some raw \<Rightarrow>
          if \<not> truthy raw then (Returned, s)
          else (case raw of
                  JObj kw \<Rightarrow>
                    (case py_int (case dict_get kw ''used'' of None \<Rightarrow> JInt 0 | Some v \<Rightarrow> v) of
                       Inl e \<Rightarrow> (Raised e, s)
                     | Inr n \<Rightarrow>
                         let raw' = dict_set kw ''used'' (JInt (n + 1));
                             data' = dict_set data (confirmation_id c) (JObj raw')
                         in audit (save s data') now ''executed'' (confirmation_id c)
                              (Some [(''result'', str_dict result)]))
                | _ \<Rightarrow> (Raised AttributeError, s)))"

section \<open>Sequences of calls\<close>

text \<open>
  The four public methods of the store as calls, and the files after a call.
  \<^verbatim>\<open>get\<close> only reads.
\<close>

datatype store_call =
    Put Confirmation int
  | Get string
  | MarkUsed Confirmation any_dict int
  | Audit int string string "any_dict option"

fun apply_call :: "store \<Rightarrow> store_call \<Rightarrow> store" where
  "apply_call s (Put c now) = files_after (put s c now)"
| "apply_call s (Get cid) = s"
| "apply_call s (MarkUsed c result now) = files_after (mark_used s c result now)"
| "apply_call s (Audit now action cid extra) = files_after (audit s now action cid extra)"

fun run_calls :: "store \<Rightarrow> store_call list \<Rightarrow> store" where
  "run_calls s [] = s"
| "run_calls s (x # xs) = run_calls (apply_call s x) xs"




fun puts_id :: "string \<Rightarrow> store_call \<Rightarrow> bool" where
  "puts_id cid (Put c now) = (confirmation_id c = cid)"
| "puts_id cid _ = False"

fun marks_id :: "string \<Rightarrow> store_call \<Rightarrow> bool" where
  "marks_id cid (MarkUsed c result now) = (confirmation_id c = cid)"
| "marks_id cid _ = False"

definition count_calls :: "(store_call \<Rightarrow> bool) \<Rightarrow> store_call list \<Rightarrow> nat" where
  "count_calls P xs = length (filter P xs)"







text \<open>
  A \<^verbatim>\<open>mark_used\<close> for an id made while \<^verbatim>\<open>get\<close> returns a record under the id that
  \<open>can_use\<close> at the clock of the call: the use of a caller that checks before it
  consumes.
\<close>

fun eligible_mark :: "string \<Rightarrow> store \<Rightarrow> store_call \<Rightarrow> bool" where
  "eligible_mark cid s (MarkUsed c result now) =
     (confirmation_id c = cid
      \<and> (case get s cid of Inr (Some r) \<Rightarrow> can_use now r | _ \<Rightarrow> False))"
| "eligible_mark cid s _ = False"

fun eligible_marks :: "string \<Rightarrow> store \<Rightarrow> store_call list \<Rightarrow> nat" where
  "eligible_marks cid s [] = 0"
| "eligible_marks cid s (x # xs) =
     (if eligible_mark cid s x then 1 else 0) + eligible_marks cid (apply_call s x) xs"

text \<open>The audit lines the two writers append.\<close>

definition proposed_line :: "int \<Rightarrow> Confirmation \<Rightarrow> py_dict" where
  "proposed_line now c =
     [(''ts'', JInt now), (''action'', JStr ''proposed''),
      (''confirmation_id'', JStr (confirmation_id c)),
      (''classification'', json_of (str_dict (classification c)))]"

definition executed_line :: "int \<Rightarrow> string \<Rightarrow> any_dict \<Rightarrow> py_dict" where
  "executed_line now cid result =
     [(''ts'', JInt now), (''action'', JStr ''executed''), (''confirmation_id'', JStr cid),
      (''result'', json_of (str_dict result))]"

subsection \<open>Interrupted \<^verbatim>\<open>put\<close> calls\<close>

text \<open>
  A \<^verbatim>\<open>put\<close> that runs to its end (or to the exception of \<^verbatim>\<open>json.dumps\<close>), one
  that stops before the rename inside \<^verbatim>\<open>_save\<close> (the map is untouched), and one that
  stops after \<^verbatim>\<open>_save\<close> and before the audit line.
\<close>

datatype put_run =
    PutCompleted Confirmation int
  | PutStoppedBeforeSave Confirmation
  | PutStoppedBeforeAudit Confirmation

fun after_put_run :: "store \<Rightarrow> put_run \<Rightarrow> store" where
  "after_put_run s (PutCompleted c now) = files_after (put s c now)"
| "after_put_run s (PutStoppedBeforeSave c) = s"
| "after_put_run s (PutStoppedBeforeAudit c) = files_after (put_save s c)"

fun after_put_runs :: "store \<Rightarrow> put_run list \<Rightarrow> store" where
  "after_put_runs s [] = s"
| "after_put_runs s (x # xs) = after_put_runs (after_put_run s x) xs"

text \<open>
  An audit line whose action is \<^verbatim>\<open>proposed\<close> names an id under which \<^verbatim>\<open>get\<close>
  returns a record of that id.
\<close>

definition proposed_line_ok :: "store \<Rightarrow> py_dict \<Rightarrow> bool" where
  "proposed_line_ok s line =
     (if dict_get line ''action'' = Some (JStr ''proposed'')
      then (case dict_get line ''confirmation_id'' of
              Some (JStr cid) \<Rightarrow>
                (case get s cid of Inr (Some c) \<Rightarrow> confirmation_id c = cid | _ \<Rightarrow> False)
            | _ \<Rightarrow> False)
      else True)"

definition proposed_have_records :: "store \<Rightarrow> bool" where
  "proposed_have_records s = list_all (proposed_line_ok s) (audit_file s)"


subsection \<open>Records to try the store on\<close>

text \<open>
  The record of the scenario \<^verbatim>\<open>propose ["commit", "-am", "fix"]\<close> on branch
  \<^verbatim>\<open>main\<close> with a clean tree required, fingerprinted with the identity in place of
  the digest; the same record with its reasons in a tuple; and a result that holds
  \<^verbatim>\<open>bytes\<close>.
\<close>

definition scenario_record :: Confirmation where
  "scenario_record =
     \<lparr>confirmation_id = ''5f2a90c41be07d36'', root = ''/repo'',
      args = [''commit'', ''-am'', ''fix''],
      classification = [(''risk'', PStr ''write''), (''reasons'', PList [PStr ''mutating''])],
      cmd_hash = command_hash (\<lambda>s. s) [''commit'', ''-am'', ''fix''],
      created_at = 100, expires_at = 400, max_uses = 1, used = 0,
      preconditions = \<lparr>expected_head = None, expected_branch = Some ''main'',
                        require_clean = True, require_no_conflicts = True\<rparr>\<rparr>"



section \<open>Dictionaries\<close>

lemma dict_get_set_same: "dict_get (dict_set d k v) k = Some v"
  by (simp add: dict_get_def dict_set_def update_conv')

lemma dict_get_set_other: "k' \<noteq> k \<Longrightarrow> dict_get (dict_set d k v) k' = dict_get d k'"
  by (simp add: dict_get_def dict_set_def update_conv')

lemma dict_keys_set: "set (dict_keys (dict_set d k v)) = insert k (set (dict_keys d))"
  using dom_update [of k v d] by (simp add: dict_keys_def dict_set_def)

lemma dict_set_nonempty: "dict_set d k v \<noteq> []"
  by (simp add: dict_set_def)

lemma dict_set_new: "k \<notin> set (dict_keys d) \<Longrightarrow> dict_set d k v = d @ [(k, v)]"
  by (induction d) (auto simp: dict_set_def dict_keys_def)

lemma dict_merge_distinct:
  "distinct (dict_keys (d @ ps)) \<Longrightarrow> dict_merge d ps = d @ ps"
proof (induction ps arbitrary: d)
  case Nil
  then show ?case by (simp add: dict_merge_def)
next
  case (Cons p ps)
  obtain k v where p: "p = (k, v)" by (cases p)
  from Cons.prems p have new: "k \<notin> set (dict_keys d)"
    by (auto simp: dict_keys_def)
  from Cons.prems p have "distinct (dict_keys ((d @ [(k, v)]) @ ps))"
    by (simp add: dict_keys_def)
  from Cons.IH [OF this] have "dict_merge (d @ [(k, v)]) ps = d @ (k, v) # ps" by simp
  with new p show ?case by (simp add: dict_merge_def dict_set_new)
qed

lemma dict_of_pairs_distinct: "distinct (dict_keys ps) \<Longrightarrow> dict_of_pairs ps = ps"
  using dict_merge_distinct [of "[]" ps] by (simp add: dict_of_pairs_def)

section \<open>Writing and reading JSON\<close>

lemma json_of_str_dict: "json_of (str_dict d) = JObj (json_of_dict d)"
  by (simp add: str_dict_def json_of_dict_def o_def case_prod_unfold)

lemma py_of_json_JObj: "py_of_json (JObj kvs) = str_dict (any_dict_of kvs)"
  by (simp add: str_dict_def any_dict_of_def o_def case_prod_unfold)

lemma str_dict_inj: "str_dict d = str_dict d' \<Longrightarrow> d = d'"
proof -
  have "inj (\<lambda>(k, v). (KStr k, v :: pyval))" by (auto simp: inj_on_def)
  then show "str_dict d = str_dict d' \<Longrightarrow> d = d'"
    by (simp add: str_dict_def inj_map_eq_map)
qed

lemma writable_str_dict: "writable (str_dict d) \<longleftrightarrow> list_all (\<lambda>(k, v). writable v) d"
  by (simp add: str_dict_def list_all_iff case_prod_unfold)

lemma json_value_round_trip:
  "json_value v \<Longrightarrow> writable v \<and> py_of_json (json_of v) = v"
proof (induction v)
  case (PList xs)
  then show ?case by (simp add: list_all_iff map_idI)
next
  case (PDict kvs)
  from PDict.prems have d: "distinct (map fst kvs)"
    and keys: "\<forall>(k, v) \<in> set kvs. (\<exists>s. k = KStr s) \<and> json_value v"
    by (auto simp: list_all_iff split: pykey.splits)
  have elems: "writable v \<and> py_of_json (json_of v) = v" if "(k, v) \<in> set kvs" for k v
    using PDict.IH [of "(k, v)" v] that keys by auto
  have w: "writable (PDict kvs)"
    using keys elems by (auto simp: list_all_iff)
  let ?ps = "map (\<lambda>(k, v). (key_text k, json_of v)) kvs"
  have inj: "inj_on key_text (set (map fst kvs))"
  proof (rule inj_onI)
    fix a b
    assume a: "a \<in> set (map fst kvs)" and b: "b \<in> set (map fst kvs)"
      and e: "key_text a = key_text b"
    from a keys obtain s where "a = KStr s" by fastforce
    moreover from b keys obtain t where "b = KStr t" by fastforce
    ultimately show "a = b" using e by simp
  qed
  have "map fst ?ps = map key_text (map fst kvs)"
    by (simp add: o_def case_prod_unfold)
  moreover have "distinct (map key_text (map fst kvs))"
    by (rule distinct_map [THEN iffD2, OF conjI [OF d inj]])
  ultimately have "distinct (dict_keys ?ps)"
    by (simp only: dict_keys_def)
  then have ps: "dict_of_pairs ?ps = ?ps" by (rule dict_of_pairs_distinct)
  have "map (\<lambda>(k, v). (KStr k, py_of_json v)) ?ps
          = map (\<lambda>p. (KStr (key_text (fst p)), py_of_json (json_of (snd p)))) kvs"
    by (simp add: o_def case_prod_unfold)
  also have "\<dots> = map (\<lambda>p. p) kvs"
  proof (rule map_cong [OF refl])
    fix p assume "p \<in> set kvs"
    then show "(KStr (key_text (fst p)), py_of_json (json_of (snd p))) = p"
      using keys elems [of "fst p" "snd p"] by (cases p) auto
  qed
  finally have readback: "map (\<lambda>(k, v). (KStr k, py_of_json v)) ?ps = kvs" by simp
  from w ps readback show ?case by simp
qed simp_all

lemma json_dict_round_trip:
  assumes "json_dict d"
  shows "writable (str_dict d)" and "any_dict_of (json_of_dict d) = d"
proof -
  from assms have v: "json_value (str_dict d)" by (simp add: json_dict_def)
  from json_value_round_trip [OF v] show "writable (str_dict d)" by simp
  from json_value_round_trip [OF v] have "str_dict (any_dict_of (json_of_dict d)) = str_dict d"
    by (simp add: str_dict_def any_dict_of_def json_of_dict_def o_def case_prod_unfold)
  then show "any_dict_of (json_of_dict d) = d" by (rule str_dict_inj)
qed

section \<open>The record, written and read\<close>

lemma bind_Inr_iff: "bind m f = Inr y \<longleftrightarrow> (\<exists>x. m = Inr x \<and> f x = Inr y)"
  by (cases m) (simp_all add: bind_def)

lemma as_str_list_items_map: "as_str_list_items (map JStr xs) = Inr xs"
  by (induction xs) (simp_all add: bind_def)

lemma as_int_Inr: "as_int v = Inr n \<Longrightarrow> v = JInt n"
  by (cases v) simp_all

lemma json_of_dict_asdict_Preconditions:
  "json_of_dict (asdict_Preconditions p) = stored_Preconditions p"
  by (cases "expected_head p"; cases "expected_branch p")
     (simp_all add: json_of_dict_def asdict_Preconditions_def stored_Preconditions_def
       dict_of_pairs_def dict_merge_def dict_set_def py_of_opt_str_def)

lemma json_of_dict_asdict: "json_of_dict (asdict c) = stored_entry c"
proof -
  have "json_of_dict (asdict c) = dict_of_pairs (map (\<lambda>(k, v). (k, json_of v)) (asdict c))"
    by (simp only: json_of_dict_def)
  also have "\<dots> = stored_entry c"
    by (simp add: asdict_def stored_entry_def dict_of_pairs_def dict_merge_def
        dict_set_def json_of_str_dict json_of_dict_asdict_Preconditions o_def)
  finally show ?thesis .
qed

lemma writable_asdict:
  "writable (str_dict (asdict c)) \<longleftrightarrow> writable (str_dict (classification c))"
  by (cases "expected_head (preconditions c)"; cases "expected_branch (preconditions c)")
     (simp_all add: writable_str_dict asdict_def asdict_Preconditions_def py_of_opt_str_def
       list_all_iff)

lemma Preconditions_init_stored: "Preconditions_init (stored_Preconditions p) = Inr p"
  by (cases "expected_head p"; cases "expected_branch p")
     (simp_all add: Preconditions_init_def stored_Preconditions_def Preconditions_fields_def
       dict_keys_def kw_default_def dict_get_def bind_def)

lemma preconditions_kwargs_stored:
  "preconditions_kwargs (stored_entry c) = Inr (stored_Preconditions (preconditions c))"
  by (simp add: preconditions_kwargs_def stored_entry_def dict_get_def stored_Preconditions_def)

lemma Confirmation_init_stored:
  "Confirmation_init (stored_entry c) (preconditions c) = Inr (reload c)"
  by (simp add: Confirmation_init_def stored_entry_def Confirmation_fields_def dict_keys_def
       kw_default_def kw_required_def dict_get_def bind_def as_str_list_items_map reload_def)

lemma Confirmation_of_raw_stored: "Confirmation_of_raw (stored_entry c) = Inr (reload c)"
  by (simp add: Confirmation_of_raw_def preconditions_kwargs_stored Preconditions_init_stored
      Confirmation_init_stored bind_def)

lemma stored_entry_nonempty: "stored_entry c \<noteq> []"
  by (simp add: stored_entry_def)

lemma reload_json_dict: "json_dict (classification c) \<Longrightarrow> reload c = c"
  by (simp add: reload_def json_dict_round_trip(2))

lemma reload_fields:
  "confirmation_id (reload c) = confirmation_id c" "root (reload c) = root c"
  "args (reload c) = args c" "cmd_hash (reload c) = cmd_hash c"
  "created_at (reload c) = created_at c" "expires_at (reload c) = expires_at c"
  "max_uses (reload c) = max_uses c" "used (reload c) = used c"
  "preconditions (reload c) = preconditions c"
  by (simp_all add: reload_def)

lemma Confirmation_init_used:
  assumes "Confirmation_init kw pre = Inr c"
  shows "py_int (case dict_get kw ''used'' of None \<Rightarrow> JInt 0 | Some v \<Rightarrow> v) = Inr (used c)"
  using assms unfolding Confirmation_init_def kw_default_def
  by (auto simp: bind_Inr_iff dest: as_int_Inr split: if_splits option.splits)

lemma Confirmation_init_set_used:
  assumes "Confirmation_init kw pre = Inr c"
  shows "Confirmation_init (dict_set kw ''used'' (JInt n)) pre = Inr (c\<lparr>used := n\<rparr>)"
proof -
  have keys: "list_all (\<lambda>k. k \<in> set Confirmation_fields) (dict_keys (dict_set kw ''used'' (JInt n)))
     = list_all (\<lambda>k. k \<in> set Confirmation_fields) (dict_keys kw)"
    by (simp add: list_all_iff dict_keys_set) (simp add: Confirmation_fields_def)
  show ?thesis
    using assms unfolding Confirmation_init_def keys kw_default_def kw_required_def
    by (auto simp: bind_Inr_iff dict_get_set_same dict_get_set_other split: if_splits)
qed

lemma Confirmation_of_raw_used:
  assumes "Confirmation_of_raw kw = Inr c"
  shows "py_int (case dict_get kw ''used'' of None \<Rightarrow> JInt 0 | Some v \<Rightarrow> v) = Inr (used c)"
  using assms unfolding Confirmation_of_raw_def
  by (auto simp: bind_Inr_iff dest: Confirmation_init_used)

lemma preconditions_kwargs_set_used:
  "preconditions_kwargs (dict_set kw ''used'' v) = preconditions_kwargs kw"
  by (simp add: preconditions_kwargs_def dict_get_set_other)

lemma Confirmation_of_raw_set_used:
  assumes "Confirmation_of_raw kw = Inr c"
  shows "Confirmation_of_raw (dict_set kw ''used'' (JInt n)) = Inr (c\<lparr>used := n\<rparr>)"
  using assms unfolding Confirmation_of_raw_def preconditions_kwargs_set_used
  by (auto simp: bind_Inr_iff dest: Confirmation_init_set_used)

section \<open>Single calls on the store\<close>

lemma writable_audit_line_proposed:
  "writable (str_dict (audit_line now ''proposed'' cid (Some [(''classification'', str_dict cls)])))
     \<longleftrightarrow> writable (str_dict cls)"
  by (simp add: audit_line_def dict_merge_def dict_set_def writable_str_dict)

lemma json_of_audit_line_proposed:
  "json_of_dict (audit_line now ''proposed'' (confirmation_id c)
       (Some [(''classification'', str_dict (classification c))])) = proposed_line now c"
  by (simp add: audit_line_def dict_merge_def dict_set_def json_of_dict_def dict_of_pairs_def
      proposed_line_def)

lemma writable_audit_line_executed:
  "writable (str_dict (audit_line now ''executed'' cid (Some [(''result'', str_dict result)])))
     \<longleftrightarrow> writable (str_dict result)"
  by (simp add: audit_line_def dict_merge_def dict_set_def writable_str_dict)

lemma json_of_audit_line_executed:
  "json_of_dict (audit_line now ''executed'' cid (Some [(''result'', str_dict result)]))
     = executed_line now cid result"
  by (simp add: audit_line_def dict_merge_def dict_set_def json_of_dict_def dict_of_pairs_def
      executed_line_def)

lemma db_file_audit: "db_file (files_after (audit s now action cid extra)) = db_file s"
  by (simp add: audit_def Let_def files_after_def)

lemma get_db_file: "db_file s = db_file s' \<Longrightarrow> get s cid = get s' cid"
  by (simp add: get_def load_def)

lemma get_audit: "get (files_after (audit s now action cid' extra)) cid = get s cid"
  by (rule get_db_file) (rule db_file_audit)

lemma put_save_unwritable:
  "\<not> writable (str_dict (classification c)) \<Longrightarrow> put_save s c = (Raised TypeError, s)"
  by (simp add: put_save_def Let_def writable_asdict)

lemma put_save_writable:
  "writable (str_dict (classification c)) \<Longrightarrow>
     put_save s c = (Returned, save s (dict_set (load s) (confirmation_id c) (JObj (stored_entry c))))"
  by (simp add: put_save_def Let_def writable_asdict json_of_str_dict json_of_dict_asdict)

lemma put_unwritable:
  "\<not> writable (str_dict (classification c)) \<Longrightarrow> put s c now = (Raised TypeError, s)"
  by (simp add: put_def put_save_unwritable)

lemma put_writable:
  assumes "writable (str_dict (classification c))"
  shows "put s c now =
           (Returned, \<lparr>db_file = dict_set (db_file s) (confirmation_id c) (JObj (stored_entry c)),
                       audit_file = audit_file s @ [proposed_line now c]\<rparr>)"
  using assms
  by (simp add: put_def put_save_writable audit_def Let_def writable_audit_line_proposed
      json_of_audit_line_proposed save_def load_def)

lemma get_put_save_same:
  "writable (str_dict (classification c)) \<Longrightarrow>
     get (files_after (put_save s c)) (confirmation_id c) = Inr (Some (reload c))"
  by (simp add: put_save_writable files_after_def get_def load_def save_def dict_get_set_same
      stored_entry_nonempty Confirmation_of_raw_stored bind_def)

lemma get_put_save_other:
  "cid \<noteq> confirmation_id c \<Longrightarrow> get (files_after (put_save s c)) cid = get s cid"
  by (cases "writable (str_dict (classification c))")
     (simp_all add: put_save_writable put_save_unwritable files_after_def get_def load_def
       save_def dict_get_set_other)

lemma get_put_same:
  "writable (str_dict (classification c)) \<Longrightarrow>
     get (files_after (put s c now)) (confirmation_id c) = Inr (Some (reload c))"
  by (simp add: put_writable files_after_def get_def load_def dict_get_set_same
      stored_entry_nonempty Confirmation_of_raw_stored bind_def)

lemma get_put_other:
  "cid \<noteq> confirmation_id c \<Longrightarrow> get (files_after (put s c now)) cid = get s cid"
  by (cases "writable (str_dict (classification c))")
     (simp_all add: put_writable put_unwritable files_after_def get_def load_def
       dict_get_set_other)

lemma audit_file_put_save: "audit_file (files_after (put_save s c)) = audit_file s"
  by (simp add: put_save_def Let_def files_after_def save_def)

lemma get_Some_raw:
  assumes "get s cid = Inr (Some c)"
  shows "\<exists>kw. dict_get (load s) cid = Some (JObj kw) \<and> kw \<noteq> [] \<and> Confirmation_of_raw kw = Inr c"
  using assms unfolding get_def
  by (auto simp: bind_Inr_iff split: option.splits if_splits json.splits)

lemma get_None_raw:
  assumes "get s cid = Inr None"
  shows "dict_get (load s) cid = None \<or> (\<exists>raw. dict_get (load s) cid = Some raw \<and> \<not> truthy raw)"
  using assms unfolding get_def
  by (auto simp: bind_Inr_iff split: option.splits if_splits json.splits)

lemma mark_used_found:
  assumes "get s (confirmation_id c0) = Inr (Some c)"
  shows "\<exists>s'. mark_used s c0 result now
                 = (if writable (str_dict result) then Returned else Raised TypeError, s')
           \<and> audit_file s' = audit_file s @
                (if writable (str_dict result)
                 then [executed_line now (confirmation_id c0) result] else [])
           \<and> get s' (confirmation_id c0) = Inr (Some (c\<lparr>used := used c + 1\<rparr>))
           \<and> (\<forall>cid. cid \<noteq> confirmation_id c0 \<longrightarrow> get s' cid = get s cid)"
proof -
  from get_Some_raw [OF assms] obtain kw where
    kw: "dict_get (load s) (confirmation_id c0) = Some (JObj kw)" "kw \<noteq> []"
      "Confirmation_of_raw kw = Inr c"
    by blast
  define saved where "saved = save s (dict_set (load s) (confirmation_id c0)
        (JObj (dict_set kw ''used'' (JInt (used c + 1)))))"
  define s' where "s' = files_after (audit saved now ''executed'' (confirmation_id c0)
        (Some [(''result'', str_dict result)]))"
  have 0: "mark_used s c0 result now
             = audit saved now ''executed'' (confirmation_id c0) (Some [(''result'', str_dict result)])"
    by (simp add: mark_used_def Let_def kw Confirmation_of_raw_used [OF kw(3)] saved_def)
  have 1: "mark_used s c0 result now
             = (if writable (str_dict result) then Returned else Raised TypeError, s')"
    unfolding 0 s'_def
    by (simp add: audit_def Let_def writable_audit_line_executed files_after_def)
  have 2: "audit_file s' = audit_file s @
             (if writable (str_dict result)
              then [executed_line now (confirmation_id c0) result] else [])"
    by (simp add: s'_def audit_def Let_def writable_audit_line_executed files_after_def
        json_of_audit_line_executed saved_def save_def)
  have 3: "get s' (confirmation_id c0) = Inr (Some (c\<lparr>used := used c + 1\<rparr>))"
    by (simp add: s'_def get_audit)
       (simp add: saved_def get_def load_def save_def dict_get_set_same dict_set_nonempty
          Confirmation_of_raw_set_used [OF kw(3)] bind_def)
  have 4: "get s' cid = get s cid" if "cid \<noteq> confirmation_id c0" for cid
    using that by (simp add: s'_def get_audit)
      (simp add: saved_def get_def load_def save_def dict_get_set_other)
  from 1 2 3 4 show ?thesis by blast
qed

lemma mark_used_absent:
  assumes "get s (confirmation_id c0) = Inr None"
  shows "mark_used s c0 result now = (Returned, s)"
  using get_None_raw [OF assms] by (auto simp: mark_used_def Let_def)

lemma scenario_id: "confirmation_id scenario_record = ''5f2a90c41be07d36''"
  by (simp add: scenario_record_def)

lemma scenario_json_dict: "json_dict (classification scenario_record)"
  by (simp add: scenario_record_def json_dict_def str_dict_def)

lemma scenario_writable: "writable (str_dict (classification scenario_record))"
  by (rule json_dict_round_trip(1) [OF scenario_json_dict])

section \<open>Runs of calls\<close>


lemma get_absent:
  assumes "cid \<notin> set (dict_keys (db_file s))"
  shows "get s cid = Inr None"
proof -
  from assms have "map_of (db_file s) cid = None"
    by (simp add: dict_keys_def map_of_eq_None_iff)
  then show ?thesis by (simp add: get_def load_def dict_get_def)
qed













lemma db_file_mark_used:
  "db_file (files_after (mark_used s c0 result now)) = db_file s
   \<or> (\<exists>v. db_file (files_after (mark_used s c0 result now))
             = dict_set (db_file s) (confirmation_id c0) v)"
  unfolding mark_used_def Let_def
  by (auto simp: db_file_audit save_def load_def files_after_def [of "(_, _)"]
      split: option.splits json.splits sum.splits)

lemma get_mark_used_other:
  assumes "cid \<noteq> confirmation_id c0"
  shows "get (files_after (mark_used s c0 result now)) cid = get s cid"
  using db_file_mark_used [of s c0 result now] assms
  by (auto simp: get_def load_def dict_get_set_other)

lemma get_apply_call:
  assumes "get s cid = Inr (Some c)" and "\<not> puts_id cid x"
  shows "get (apply_call s x) cid =
           Inr (Some (c\<lparr>used := used c + (if marks_id cid x then 1 else 0)\<rparr>))"
proof (cases x)
  case (Put c' now)
  with assms show ?thesis by (simp add: get_put_other)
next
  case (Get cid')
  with assms show ?thesis by simp
next
  case (MarkUsed c0 result now)
  show ?thesis
  proof (cases "confirmation_id c0 = cid")
    case True
    with assms(1) have "get s (confirmation_id c0) = Inr (Some c)" by simp
    from mark_used_found [OF this, of result now] MarkUsed True show ?thesis
      by (auto simp: files_after_def)
  next
    case False
    then have "cid \<noteq> confirmation_id c0" by blast
    from get_mark_used_other [OF this, of s result now] MarkUsed False assms(1) show ?thesis
      by simp
  qed
next
  case (Audit now action cid' extra)
  with assms show ?thesis by (simp add: get_audit)
qed

lemma get_run_calls:
  assumes "get s cid = Inr (Some c)" and "list_all (\<lambda>x. \<not> puts_id cid x) xs"
  shows "get (run_calls s xs) cid =
           Inr (Some (c\<lparr>used := used c + int (count_calls (marks_id cid) xs)\<rparr>))"
  using assms
proof (induction xs arbitrary: s c)
  case Nil
  then show ?case by (simp add: count_calls_def)
next
  case (Cons x xs)
  from Cons.prems(2) have nx: "\<not> puts_id cid x" and nxs: "list_all (\<lambda>x. \<not> puts_id cid x) xs"
    by simp_all
  from Cons.IH [OF get_apply_call [OF Cons.prems(1) nx] nxs] show ?case
    by (simp add: count_calls_def)
qed

lemma eligible_mark_used:
  assumes "get s cid = Inr (Some c)" and "eligible_mark cid s x"
  shows "marks_id cid x \<and> used c < max_uses c"
  using assms by (cases x) (auto simp: can_use_def)

lemma eligible_marks_bound:
  assumes "get s cid = Inr (Some c)" and "list_all (\<lambda>x. \<not> puts_id cid x) xs"
  shows "int (eligible_marks cid s xs) \<le> max 0 (max_uses c - used c)"
  using assms
proof (induction xs arbitrary: s c)
  case Nil
  then show ?case by simp
next
  case (Cons x xs)
  from Cons.prems(2) have nx: "\<not> puts_id cid x" and nxs: "list_all (\<lambda>x. \<not> puts_id cid x) xs"
    by simp_all
  let ?c' = "c\<lparr>used := used c + (if marks_id cid x then 1 else 0)\<rparr>"
  have g': "get (apply_call s x) cid = Inr (Some ?c')"
    by (rule get_apply_call [OF Cons.prems(1) nx])
  from Cons.IH [OF g' nxs]
  have rest: "int (eligible_marks cid (apply_call s x) xs)
                \<le> max 0 (max_uses c - (used c + (if marks_id cid x then 1 else 0)))"
    by simp
  show ?case
  proof (cases "eligible_mark cid s x")
    case True
    from eligible_mark_used [OF Cons.prems(1) True] rest True show ?thesis by simp
  next
    case False
    with rest show ?thesis by (simp split: if_splits)
  qed
qed

section \<open>The two writes of \<^verbatim>\<open>put\<close>\<close>

lemma proposed_line_ok_db:
  assumes "db_file s = db_file s'"
  shows "proposed_line_ok s line = proposed_line_ok s' line"
proof -
  have e: "get s = get s'" by (rule ext) (rule get_db_file [OF assms])
  show ?thesis unfolding proposed_line_ok_def e by (rule refl)
qed

lemma proposed_line_ok_put_save:
  assumes "proposed_line_ok s line"
  shows "proposed_line_ok (files_after (put_save s c)) line"
proof (cases "dict_get line ''action'' = Some (JStr ''proposed'')")
  case False
  then show ?thesis by (simp add: proposed_line_ok_def)
next
  case True
  with assms obtain cid c' where l: "dict_get line ''confirmation_id'' = Some (JStr cid)"
    and g: "get s cid = Inr (Some c')" and i: "confirmation_id c' = cid"
    by (auto simp: proposed_line_ok_def split: option.splits json.splits sum.splits)
  show ?thesis
  proof (cases "cid = confirmation_id c \<and> writable (str_dict (classification c))")
    case True
    with l \<open>dict_get line ''action'' = Some (JStr ''proposed'')\<close> show ?thesis
      by (simp add: proposed_line_ok_def get_put_save_same reload_fields)
  next
    case False
    have "get (files_after (put_save s c)) cid = get s cid"
    proof (cases "cid = confirmation_id c")
      case True
      with False have "\<not> writable (str_dict (classification c))" by simp
      then show ?thesis by (simp add: put_save_unwritable files_after_def)
    next
      case False
      then show ?thesis by (rule get_put_save_other)
    qed
    with l g i \<open>dict_get line ''action'' = Some (JStr ''proposed'')\<close> show ?thesis
      by (simp add: proposed_line_ok_def)
  qed
qed

lemma proposed_line_ok_new:
  "writable (str_dict (classification c)) \<Longrightarrow>
     proposed_line_ok (files_after (put s c now)) (proposed_line now c)"
  by (simp add: proposed_line_ok_def proposed_line_def dict_get_def get_put_same reload_fields)

lemma proposed_have_records_put_save:
  "proposed_have_records s \<Longrightarrow> proposed_have_records (files_after (put_save s c))"
  by (simp add: proposed_have_records_def list_all_iff audit_file_put_save
      proposed_line_ok_put_save)

lemma proposed_have_records_put:
  assumes "proposed_have_records s"
  shows "proposed_have_records (files_after (put s c now))"
proof (cases "writable (str_dict (classification c))")
  case False
  with assms show ?thesis by (simp add: put_unwritable files_after_def)
next
  case True
  have db: "db_file (files_after (put s c now)) = db_file (files_after (put_save s c))"
    using True by (simp add: put_writable put_save_writable files_after_def save_def load_def)
  have "proposed_line_ok (files_after (put s c now)) line" if "line \<in> set (audit_file s)" for line
  proof -
    from assms that have "proposed_line_ok s line"
      by (simp add: proposed_have_records_def list_all_iff)
    then have "proposed_line_ok (files_after (put_save s c)) line"
      by (rule proposed_line_ok_put_save)
    then show ?thesis by (simp add: proposed_line_ok_db [OF db])
  qed
  moreover have "audit_file (files_after (put s c now)) = audit_file s @ [proposed_line now c]"
    using True by (simp add: put_writable files_after_def)
  ultimately show ?thesis
    using True by (simp add: proposed_have_records_def list_all_iff proposed_line_ok_new)
qed

lemma proposed_have_records_runs:
  "proposed_have_records s \<Longrightarrow> proposed_have_records (after_put_runs s xs)"
proof (induction xs arbitrary: s)
  case Nil
  then show ?case by simp
next
  case (Cons x xs)
  then show ?case
    by (cases x) (simp_all add: proposed_have_records_put proposed_have_records_put_save)
qed

section \<open>The audit file only grows\<close>

lemma prefix_audit: "prefix (audit_file s) (audit_file (files_after (audit s now action cid extra)))"
  by (simp add: audit_def Let_def files_after_def)

lemma prefix_put: "prefix (audit_file s) (audit_file (files_after (put s c now)))"
  by (cases "writable (str_dict (classification c))")
     (simp_all add: put_writable put_unwritable files_after_def)

lemma prefix_mark_used:
  "prefix (audit_file s) (audit_file (files_after (mark_used s c result now)))"
  unfolding mark_used_def Let_def
  by (auto simp: audit_def save_def Let_def files_after_def
      split: option.splits json.splits sum.splits)

lemma prefix_apply_call: "prefix (audit_file s) (audit_file (apply_call s x))"
  by (cases x) (simp_all add: prefix_put prefix_mark_used prefix_audit)

lemma prefix_run_calls: "prefix (audit_file s) (audit_file (run_calls s xs))"
proof (induction xs arbitrary: s)
  case Nil
  then show ?case by simp
next
  case (Cons x xs)
  have "prefix (audit_file s) (audit_file (apply_call s x))" by (rule prefix_apply_call)
  also have "prefix \<dots> (audit_file (run_calls (apply_call s x) xs))" by (rule Cons.IH)
  finally show ?case by simp
qed

section \<open>Fingerprints\<close>

lemma append_sep_eq:
  assumes "a \<notin> set x" and "a \<notin> set y" and "x @ a # r1 = y @ a # r2"
  shows "x = y \<and> r1 = r2"
  using assms
proof (induction x arbitrary: y)
  case Nil
  then show ?case by (cases y) auto
next
  case (Cons h x)
  then show ?case by (cases y) auto
qed

lemma join_newline_inj:
  assumes "\<forall>x \<in> set xs. CHR 0x0A \<notin> set x" and "\<forall>y \<in> set ys. CHR 0x0A \<notin> set y"
    and "xs \<noteq> []" and "ys \<noteq> []"
    and "join newline xs = join newline ys"
  shows "xs = ys"
  using assms
proof (induction xs arbitrary: ys)
  case Nil
  then show ?case by simp
next
  case (Cons x xs)
  from Cons.prems(4) obtain y ys' where ys: "ys = y # ys'" by (cases ys) auto
  show ?case
  proof (cases xs)
    case Nil
    show ?thesis
    proof (cases ys')
      case Nil
      with \<open>xs = []\<close> ys Cons.prems(5) show ?thesis by simp
    next
      case (Cons y' ys'')
      with \<open>xs = []\<close> ys Cons.prems(5) have "x = y @ CHR 0x0A # join newline (y' # ys'')"
        by (simp add: newline_def)
      then have "CHR 0x0A \<in> set x" by simp
      with Cons.prems(1) show ?thesis by simp
    qed
  next
    case (Cons x' xs'')
    note xs = this
    show ?thesis
    proof (cases ys')
      case Nil
      with xs ys Cons.prems(5) have "y = x @ CHR 0x0A # join newline (x' # xs'')"
        by (simp add: newline_def)
      then have "CHR 0x0A \<in> set y" by simp
      with Cons.prems(2) ys show ?thesis by simp
    next
      case (Cons y' ys'')
      with xs ys Cons.prems(5)
      have e: "x @ CHR 0x0A # join newline xs = y @ CHR 0x0A # join newline ys'"
        by (simp add: newline_def)
      from Cons.prems(1) have nx: "CHR 0x0A \<notin> set x" by simp
      from Cons.prems(2) ys have ny: "CHR 0x0A \<notin> set y" by simp
      from append_sep_eq [OF nx ny e] have xy: "x = y" and r: "join newline xs = join newline ys'"
        by simp_all
      have "xs = ys'"
      proof (rule Cons.IH)
        show "\<forall>x \<in> set xs. CHR 0x0A \<notin> set x" using Cons.prems(1) by simp
        show "\<forall>y \<in> set ys'. CHR 0x0A \<notin> set y" using Cons.prems(2) ys by simp
        show "xs \<noteq> []" using xs by simp
        show "ys' \<noteq> []" using Cons by simp
        show "join newline xs = join newline ys'" by (rule r)
      qed
      with xy ys show ?thesis by simp
    qed
  qed
qed

lemma command_hash_inj:
  assumes "inj hexdigest"
    and "\<forall>x \<in> set xs. CHR 0x0A \<notin> set x" and "\<forall>y \<in> set ys. CHR 0x0A \<notin> set y"
    and "xs \<noteq> []" and "ys \<noteq> []" and "xs \<noteq> ys"
  shows "command_hash hexdigest xs \<noteq> command_hash hexdigest ys"
proof
  assume "command_hash hexdigest xs = command_hash hexdigest ys"
  with assms(1) have "join newline xs = join newline ys"
    by (simp add: command_hash_def sha256_text_def stable_cmd_text_def inj_eq)
  from join_newline_inj [OF assms(2,3,4,5) this] assms(6) show False by simp
qed

lemma command_hash_space_example:
  assumes "inj hexdigest"
  shows "command_hash hexdigest [''commit'', ''-m'', ''a b'']
           \<noteq> command_hash hexdigest [''commit'', ''-m'', ''a'', ''b'']"
  using assms by (simp add: command_hash_def sha256_text_def stable_cmd_text_def inj_eq newline_def)

lemma command_hash_empty_collision:
  "command_hash hexdigest [] = command_hash hexdigest [[]]"
  by (simp add: command_hash_def stable_cmd_text_def)

text \<open>
  C6. Newline-joining is meant to give distinct argument vectors distinct fingerprints.
  It does not when an argument holds a newline: the vector
  \<^verbatim>\<open>["commit", "-m", "a\nb"]\<close> and the vector \<^verbatim>\<open>["commit", "-m", "a", "b"]\<close>
  are different and have the same stable text, so the same fingerprint under every
  digest.
\<close>

theorem fingerprint_newline_collision:
  "[''commit'', ''-m'', ''a'' @ newline @ ''b''] \<noteq> [''commit'', ''-m'', ''a'', ''b'']
   \<and> stable_cmd_text [''commit'', ''-m'', ''a'' @ newline @ ''b'']
       = stable_cmd_text [''commit'', ''-m'', ''a'', ''b'']
   \<and> command_hash hexdigest [''commit'', ''-m'', ''a'' @ newline @ ''b'']
       = command_hash hexdigest [''commit'', ''-m'', ''a'', ''b'']"
  by (simp add: command_hash_def stable_cmd_text_def newline_def)

section \<open>Expiry and eligibility\<close>

text \<open>
  C2. For every record and every clock reading, \<open>is_expired\<close> holds exactly when the
  clock is strictly past \<open>expires_at\<close>, and \<open>can_use\<close> holds exactly when the record is
  not expired and \<open>used < max_uses\<close>; so an expired record is never usable, whatever
  \<open>used\<close> is, and a record with \<open>used \<ge> max_uses\<close> is never usable, whatever the clock.
\<close>

theorem expiry_and_eligibility:
  "(is_expired now c \<longleftrightarrow> expires_at c < now)
   \<and> (can_use now c \<longleftrightarrow> \<not> is_expired now c \<and> used c < max_uses c)
   \<and> (is_expired now c \<longrightarrow> \<not> can_use now c)
   \<and> (max_uses c \<le> used c \<longrightarrow> \<not> can_use now c)"
  by (auto simp: is_expired_def can_use_def)

text \<open>
  The scenario record expires at 400: it is usable at 400 and expired at 401, and with
  its one use spent it is unusable at 400 too.
\<close>

theorem expiry_and_eligibility_witness:
  "can_use 400 scenario_record
   \<and> is_expired 401 scenario_record \<and> \<not> can_use 401 scenario_record
   \<and> max_uses (scenario_record\<lparr>used := 1\<rparr>) \<le> used (scenario_record\<lparr>used := 1\<rparr>)
   \<and> \<not> can_use 400 (scenario_record\<lparr>used := 1\<rparr>)"
  using expiry_and_eligibility [of 400 scenario_record]
    expiry_and_eligibility [of 401 scenario_record]
    expiry_and_eligibility [of 400 "scenario_record\<lparr>used := 1\<rparr>"]
  by (simp add: scenario_record_def)

section \<open>Round trip\<close>






section \<open>Unknown ids\<close>

text \<open>
  C9. When the id of \<open>c\<close> is no key of the durable map, \<^verbatim>\<open>mark_used\<close> returns
  without an error and leaves both files as they were: the map unchanged, no audit line.
\<close>

theorem mark_used_unknown_noop:
  assumes "confirmation_id c \<notin> set (dict_keys (db_file s))"
  shows "mark_used s c result now = (Returned, s)"
  using get_absent [OF assms] by (rule mark_used_absent)

theorem mark_used_unknown_noop_witness:
  "mark_used init_store scenario_record [(''exit_code'', PInt 0)] 101 = (Returned, init_store)
   \<and> db_file init_store = [] \<and> audit_file init_store = []"
  using mark_used_unknown_noop [of scenario_record init_store "[(''exit_code'', PInt 0)]" 101]
  by (simp add: init_store_def dict_keys_def)

section \<open>Append-only audit\<close>

text \<open>
  C7. For each of the four store operations (\<^verbatim>\<open>put\<close>, \<^verbatim>\<open>get\<close>, \<^verbatim>\<open>mark_used\<close>,
  \<^verbatim>\<open>audit\<close>), whether it returns or raises, the audit file before the call is a
  prefix of the audit file after it, and so it is across every run of calls: no line
  is rewritten or removed.
\<close>

theorem audit_append_only:
  "prefix (audit_file s) (audit_file (apply_call s x))
   \<and> prefix (audit_file s) (audit_file (run_calls s xs))
   \<and> prefix (audit_file s) (audit_file (files_after (put s c now)))
   \<and> prefix (audit_file s) (audit_file (files_after (mark_used s c result now)))
   \<and> prefix (audit_file s) (audit_file (files_after (audit s now action cid extra)))"
  by (simp add: prefix_apply_call prefix_run_calls prefix_put prefix_mark_used prefix_audit)

section \<open>Write order in \<^verbatim>\<open>put\<close>\<close>

text \<open>
  C8. \<^verbatim>\<open>put\<close> writes its audit line on the state that \<^verbatim>\<open>_save\<close> left, in which
  \<^verbatim>\<open>get\<close> already returns the record and the audit file is still the old one. So
  after any run of \<^verbatim>\<open>put\<close> calls on a new store, completed or stopped before either
  write, every \<^verbatim>\<open>proposed\<close> line of the audit file names an id under which the
  durable map holds a record of that id. (A \<^verbatim>\<open>put\<close> whose record \<^verbatim>\<open>json.dumps\<close>
  cannot write raises inside \<^verbatim>\<open>_save\<close> and writes neither.)
\<close>

theorem proposed_after_durable_write:
  "proposed_have_records (after_put_runs init_store xs)
   \<and> put s c now =
       (case put_save s c of
          (Raised e, s') \<Rightarrow> (Raised e, s')
        | (Returned, s') \<Rightarrow>
            audit s' now ''proposed'' (confirmation_id c)
              (Some [(''classification'', str_dict (classification c))]))
   \<and> audit_file (files_after (put_save s c)) = audit_file s
   \<and> (json_dict (classification c) \<longrightarrow>
        get (files_after (put_save s c)) (confirmation_id c) = Inr (Some c))
   \<and> (writable (str_dict (classification c)) \<longrightarrow>
        fst (put_save s c) = Returned
        \<and> (\<exists>c'. get (files_after (put_save s c)) (confirmation_id c) = Inr (Some c')
              \<and> confirmation_id c' = confirmation_id c)
        \<and> audit_file (files_after (put s c now)) = audit_file s @ [proposed_line now c])
   \<and> (\<not> writable (str_dict (classification c)) \<longrightarrow>
        put_save s c = (Raised TypeError, s) \<and> put s c now = (Raised TypeError, s))"
proof -
  have "proposed_have_records init_store"
    by (simp add: proposed_have_records_def init_store_def)
  then have runs: "proposed_have_records (after_put_runs init_store xs)"
    by (rule proposed_have_records_runs)
  have stable: "get (files_after (put_save s c)) (confirmation_id c) = Inr (Some c)"
    if j: "json_dict (classification c)"
    using get_put_save_same [OF json_dict_round_trip(1) [OF j], of s]
    by (simp add: reload_json_dict [OF j])
  have w: "fst (put_save s c) = Returned
        \<and> (\<exists>c'. get (files_after (put_save s c)) (confirmation_id c) = Inr (Some c')
              \<and> confirmation_id c' = confirmation_id c)
        \<and> audit_file (files_after (put s c now)) = audit_file s @ [proposed_line now c]"
    if w: "writable (str_dict (classification c))"
  proof -
    have "fst (put_save s c) = Returned" by (simp add: put_save_writable [OF w])
    moreover have "audit_file (files_after (put s c now)) = audit_file s @ [proposed_line now c]"
      by (simp add: put_writable [OF w] files_after_def)
    ultimately show ?thesis
      using get_put_save_same [OF w, of s] by (simp add: reload_fields)
  qed
  from runs stable w show ?thesis
    by (simp add: audit_file_put_save put_save_unwritable put_unwritable) (simp add: put_def)
qed

text \<open>
  A completed \<^verbatim>\<open>put\<close> followed by one stopped before its audit line: one
  \<^verbatim>\<open>proposed\<close> line, and its record is there.
\<close>

theorem proposed_after_durable_write_witness:
  "proposed_have_records (after_put_runs init_store
      [PutCompleted scenario_record 100,
       PutStoppedBeforeAudit (scenario_record\<lparr>confirmation_id := ''0000000000000000''\<rparr>)])
   \<and> audit_file (after_put_runs init_store
      [PutCompleted scenario_record 100,
       PutStoppedBeforeAudit (scenario_record\<lparr>confirmation_id := ''0000000000000000''\<rparr>)])
      = [proposed_line 100 scenario_record]
   \<and> dict_get (proposed_line 100 scenario_record) ''action'' = Some (JStr ''proposed'')
   \<and> get (files_after (put_save init_store scenario_record)) ''5f2a90c41be07d36''
       = Inr (Some scenario_record)"
proof -
  let ?xs = "[PutCompleted scenario_record 100,
       PutStoppedBeforeAudit (scenario_record\<lparr>confirmation_id := ''0000000000000000''\<rparr>)]"
  note inst = proposed_after_durable_write [of ?xs init_store scenario_record 100]
  from inst have "proposed_have_records (after_put_runs init_store ?xs)"
    by (rule conjunct1)
  moreover from inst scenario_json_dict
  have "get (files_after (put_save init_store scenario_record)) ''5f2a90c41be07d36''
          = Inr (Some scenario_record)"
    by (simp add: scenario_id)
  moreover have "audit_file (after_put_runs init_store ?xs) = [proposed_line 100 scenario_record]"
    by (simp add: audit_file_put_save put_writable [OF scenario_writable] files_after_def [of "(_, _)"]
        init_store_def)
  moreover have "dict_get (proposed_line 100 scenario_record) ''action'' = Some (JStr ''proposed'')"
    by (simp add: proposed_line_def dict_get_def)
  ultimately show ?thesis by simp
qed

section \<open>One-shot enforcement\<close>

lemma can_use_used_update:
  "can_use t (c\<lparr>used := u\<rparr>) \<longleftrightarrow> t \<le> expires_at c \<and> u < max_uses c"
  by (auto simp: can_use_def is_expired_def)

lemma get_scenario_put:
  "get (files_after (put s scenario_record now)) ''5f2a90c41be07d36''
     = Inr (Some scenario_record)"
  using get_put_same [OF scenario_writable, of s now]
  by (simp add: scenario_id reload_json_dict [OF scenario_json_dict])

text \<open>
  C1, as the code has it. For a stored record with \<open>used = 0\<close>, after one
  \<^verbatim>\<open>mark_used\<close> (whether or not its audit line could be written) \<^verbatim>\<open>get\<close> returns
  the record with \<open>used = 1\<close>. When \<open>max_uses = 1\<close> that is \<open>used \<ge> max_uses\<close>:
  \<open>can_use\<close> is false at every clock reading, and stays false after every further run
  of calls with no \<^verbatim>\<open>put\<close> under the id. The store enforces no ceiling on
  \<^verbatim>\<open>mark_used\<close>; but for any \<open>max_uses\<close>, in a run with no \<^verbatim>\<open>put\<close> under the id
  at most \<open>max_uses\<close> of the \<^verbatim>\<open>mark_used\<close> calls for the id are made while
  \<open>can_use\<close> holds, so a caller that checks \<open>can_use\<close> before each use exercises the
  token at most \<open>max_uses\<close> times. A \<^verbatim>\<open>put\<close> under the same id stores the record it
  is given, \<open>used\<close> included.
\<close>

theorem one_shot_enforcement:
  assumes "get s cid = Inr (Some c)" and "used c = 0" and "confirmation_id c0 = cid"
  shows "get (files_after (mark_used s c0 result now)) cid = Inr (Some (c\<lparr>used := 1\<rparr>))
         \<and> (max_uses c = 1 \<longrightarrow>
               max_uses (c\<lparr>used := 1\<rparr>) \<le> used (c\<lparr>used := 1\<rparr>)
               \<and> (\<forall>t. \<not> can_use t (c\<lparr>used := 1\<rparr>))
               \<and> (\<forall>xs. list_all (\<lambda>x. \<not> puts_id cid x) xs \<longrightarrow>
                     (\<exists>c'. get (run_calls (files_after (mark_used s c0 result now)) xs) cid
                             = Inr (Some c')
                        \<and> max_uses c' \<le> used c' \<and> (\<forall>t. \<not> can_use t c'))))
         \<and> (\<forall>xs. list_all (\<lambda>x. \<not> puts_id cid x) xs \<longrightarrow>
               int (eligible_marks cid s xs) \<le> max 0 (max_uses c))
         \<and> (\<forall>c1 t. confirmation_id c1 = cid \<and> writable (str_dict (classification c1)) \<longrightarrow>
               (\<exists>c'. get (files_after (put (files_after (mark_used s c0 result now)) c1 t)) cid
                       = Inr (Some c')
                  \<and> used c' = used c1 \<and> max_uses c' = max_uses c1
                  \<and> expires_at c' = expires_at c1))"
proof -
  let ?s' = "files_after (mark_used s c0 result now)"
  from assms(1,3) have g: "get s (confirmation_id c0) = Inr (Some c)" by simp
  from mark_used_found [OF g, of result now] assms(2,3)
  have g': "get ?s' cid = Inr (Some (c\<lparr>used := 1\<rparr>))"
    by (auto simp: files_after_def)
  have later: "\<exists>c'. get (run_calls ?s' xs) cid = Inr (Some c')
                 \<and> max_uses c' \<le> used c' \<and> (\<forall>t. \<not> can_use t c')"
    if "max_uses c = 1" and "list_all (\<lambda>x. \<not> puts_id cid x) xs" for xs
    using get_run_calls [OF g' that(2)] that(1) by (simp add: can_use_used_update)
  have bound: "int (eligible_marks cid s xs) \<le> max 0 (max_uses c)"
    if "list_all (\<lambda>x. \<not> puts_id cid x) xs" for xs
    using eligible_marks_bound [OF assms(1) that] assms(2) by simp
  have reput: "\<exists>c'. get (files_after (put ?s' c1 t)) cid = Inr (Some c')
                  \<and> used c' = used c1 \<and> max_uses c' = max_uses c1
                  \<and> expires_at c' = expires_at c1"
    if "confirmation_id c1 = cid" and w: "writable (str_dict (classification c1))" for c1 t
    using get_put_same [OF w, of ?s' t] that(1) by (simp add: reload_fields)
  from g' later bound reput show ?thesis
    by (simp add: can_use_used_update)
qed

text \<open>
  The scenario record, proposed at 100 and used at 101 by a command that failed: the
  stored record has \<open>used = 1\<close> and cannot be used any more.
\<close>

theorem one_shot_enforcement_witness:
  "get (files_after (mark_used (files_after (put init_store scenario_record 100))
          scenario_record [(''exit_code'', PInt 1)] 101)) ''5f2a90c41be07d36''
     = Inr (Some (scenario_record\<lparr>used := 1\<rparr>))
   \<and> max_uses (scenario_record\<lparr>used := 1\<rparr>) \<le> used (scenario_record\<lparr>used := 1\<rparr>)
   \<and> \<not> can_use 101 (scenario_record\<lparr>used := 1\<rparr>)"
proof -
  have u: "used scenario_record = 0" by (simp add: scenario_record_def)
  have m: "max_uses scenario_record = 1" by (simp add: scenario_record_def)
  from one_shot_enforcement [OF get_scenario_put u scenario_id,
      of init_store 100 "[(''exit_code'', PInt 1)]" 101] m
  show ?thesis by blast
qed

text \<open>
  The claim as stated fails in two ways. Proposed, used and proposed again under the
  same id, the record is back to \<open>used = 0\<close> and usable. And \<^verbatim>\<open>mark_used\<close> twice
  leaves \<open>used = 2\<close> with \<open>max_uses = 1\<close>.
\<close>

theorem one_shot_reput_counterexample:
  "get (run_calls init_store [Put scenario_record 100, MarkUsed scenario_record [] 100])
       ''5f2a90c41be07d36'' = Inr (Some (scenario_record\<lparr>used := 1\<rparr>))
   \<and> \<not> can_use 100 (scenario_record\<lparr>used := 1\<rparr>)
   \<and> get (run_calls init_store
            [Put scenario_record 100, MarkUsed scenario_record [] 100, Put scenario_record 100])
       ''5f2a90c41be07d36'' = Inr (Some scenario_record)
   \<and> can_use 100 scenario_record
   \<and> get (run_calls init_store
            [Put scenario_record 100, MarkUsed scenario_record [] 100,
             MarkUsed scenario_record [] 100])
       ''5f2a90c41be07d36'' = Inr (Some (scenario_record\<lparr>used := 2\<rparr>))
   \<and> max_uses (scenario_record\<lparr>used := 2\<rparr>) = 1"
proof -
  let ?p = "files_after (put init_store scenario_record 100)"
  have u: "used scenario_record = 0" by (simp add: scenario_record_def)
  have 1: "get (run_calls ?p [MarkUsed scenario_record [] 100]) ''5f2a90c41be07d36''
             = Inr (Some (scenario_record\<lparr>used := 1\<rparr>))"
    using get_run_calls [OF get_scenario_put, of "[MarkUsed scenario_record [] 100]" init_store 100] u
    by (simp add: count_calls_def scenario_id)
  have 2: "get (files_after (put (run_calls ?p [MarkUsed scenario_record [] 100])
                  scenario_record 100)) ''5f2a90c41be07d36'' = Inr (Some scenario_record)"
    by (rule get_scenario_put)
  have 3: "get (run_calls ?p [MarkUsed scenario_record [] 100, MarkUsed scenario_record [] 100])
             ''5f2a90c41be07d36'' = Inr (Some (scenario_record\<lparr>used := 2\<rparr>))"
    using get_run_calls [OF get_scenario_put,
        of "[MarkUsed scenario_record [] 100, MarkUsed scenario_record [] 100]" init_store 100] u
    by (simp add: count_calls_def scenario_id)
  have 4: "\<not> can_use 100 (scenario_record\<lparr>used := 1\<rparr>)" "can_use 100 scenario_record"
    "max_uses (scenario_record\<lparr>used := 2\<rparr>) = 1"
    by (simp_all add: can_use_def is_expired_def scenario_record_def)
  from 1 2 3 4 show ?thesis by simp
qed

section \<open>The use counter\<close>




section \<open>Audit lines per call\<close>





section \<open>Confirmation ids\<close>

lemma db_file_put:
  "writable (str_dict (classification c)) \<Longrightarrow>
     db_file (files_after (put s c now))
       = dict_set (db_file s) (confirmation_id c) (JObj (stored_entry c))"
  by (simp add: put_writable files_after_def)

text \<open>
  C10. \<^verbatim>\<open>new_confirmation_id\<close> is a function of the resolved root, the clock second
  and the argument vector: equal inputs give the same id, the first 16 characters of
  the digest of the seed (16 hex digits when the digest is 64 hex digits). So two
  proposals of the same command in the same second carry the same id, and the second
  \<^verbatim>\<open>put\<close> overwrites the record of the first: the map is as if only the second had
  been stored, and the audit file has both \<^verbatim>\<open>proposed\<close> lines.
\<close>

theorem confirmation_id_deterministic:
  assumes "root1 = root2" and "now1 = now2" and "argv1 = argv2"
    and "length (hexdigest (confirmation_seed root1 now1 argv1)) = 64"
    and "set (hexdigest (confirmation_seed root1 now1 argv1)) \<subseteq> set ''0123456789abcdef''"
    and "confirmation_id c1 = new_confirmation_id hexdigest root1 now1 argv1"
    and "confirmation_id c2 = new_confirmation_id hexdigest root2 now2 argv2"
  shows "new_confirmation_id hexdigest root1 now1 argv1
           = new_confirmation_id hexdigest root2 now2 argv2
         \<and> new_confirmation_id hexdigest root1 now1 argv1
             = take 16 (hexdigest (root1 @ newline @ str_int now1 @ newline @ join newline argv1))
         \<and> length (new_confirmation_id hexdigest root1 now1 argv1) = 16
         \<and> set (new_confirmation_id hexdigest root1 now1 argv1) \<subseteq> set ''0123456789abcdef''
         \<and> confirmation_id c1 = confirmation_id c2
         \<and> (json_dict (classification c1) \<and> json_dict (classification c2) \<longrightarrow>
               get (files_after (put (files_after (put s c1 t1)) c2 t2)) (confirmation_id c1)
                 = Inr (Some c2)
               \<and> db_file (files_after (put (files_after (put s c1 t1)) c2 t2))
                   = db_file (files_after (put s c2 t2))
               \<and> audit_file (files_after (put (files_after (put s c1 t1)) c2 t2))
                   = audit_file s @ [proposed_line t1 c1, proposed_line t2 c2])
         \<and> (writable (str_dict (classification c2)) \<longrightarrow>
               (\<exists>c'. get (files_after (put (files_after (put s c1 t1)) c2 t2))
                        (confirmation_id c1) = Inr (Some c')
                  \<and> used c' = used c2 \<and> created_at c' = created_at c2)
               \<and> db_file (files_after (put (files_after (put s c1 t1)) c2 t2))
                   = db_file (files_after (put s c2 t2)))"
proof -
  let ?d = "hexdigest (confirmation_seed root1 now1 argv1)"
  let ?s1 = "files_after (put s c1 t1)"
  have eq: "new_confirmation_id hexdigest root1 now1 argv1
              = new_confirmation_id hexdigest root2 now2 argv2"
    using assms(1,2,3) by simp
  have unfolded: "new_confirmation_id hexdigest root1 now1 argv1
      = take 16 (hexdigest (root1 @ newline @ str_int now1 @ newline @ join newline argv1))"
    by (simp add: new_confirmation_id_def sha256_text_def confirmation_seed_def
        stable_cmd_text_def)
  have id: "new_confirmation_id hexdigest root1 now1 argv1 = take 16 ?d"
    by (simp add: new_confirmation_id_def sha256_text_def)
  have len: "length (new_confirmation_id hexdigest root1 now1 argv1) = 16"
    unfolding id using assms(4) by simp
  have "set (take 16 ?d) \<subseteq> set ?d" by (rule set_take_subset)
  also note assms(5)
  finally have hex: "set (new_confirmation_id hexdigest root1 now1 argv1)
                       \<subseteq> set ''0123456789abcdef''"
    unfolding id .
  have same: "confirmation_id c1 = confirmation_id c2"
    unfolding assms(6,7) by (rule eq)
  have d2: "db_file (files_after (put ?s1 c2 t2)) = db_file (files_after (put s c2 t2))"
    if w2: "writable (str_dict (classification c2))"
  proof (cases "writable (str_dict (classification c1))")
    case True
    then show ?thesis by (simp add: db_file_put w2 same dict_set_def)
  next
    case False
    then show ?thesis by (simp add: put_unwritable files_after_def [of "(_, _)"])
  qed
  have any: "\<exists>c'. get (files_after (put ?s1 c2 t2)) (confirmation_id c1) = Inr (Some c')
                  \<and> used c' = used c2 \<and> created_at c' = created_at c2"
    if w2: "writable (str_dict (classification c2))"
    using get_put_same [OF w2, of ?s1 t2] by (simp add: same reload_fields)
  have stable: "get (files_after (put ?s1 c2 t2)) (confirmation_id c1) = Inr (Some c2)
               \<and> db_file (files_after (put ?s1 c2 t2)) = db_file (files_after (put s c2 t2))
               \<and> audit_file (files_after (put ?s1 c2 t2))
                   = audit_file s @ [proposed_line t1 c1, proposed_line t2 c2]"
    if j1: "json_dict (classification c1)" and j2: "json_dict (classification c2)"
  proof -
    note w1 = json_dict_round_trip(1) [OF j1] and w2 = json_dict_round_trip(1) [OF j2]
    have "get (files_after (put ?s1 c2 t2)) (confirmation_id c1) = Inr (Some c2)"
      using get_put_same [OF w2, of ?s1 t2] by (simp add: same reload_json_dict [OF j2])
    moreover have "audit_file (files_after (put ?s1 c2 t2))
                   = audit_file s @ [proposed_line t1 c1, proposed_line t2 c2]"
      by (simp add: put_writable [OF w1] put_writable [OF w2] files_after_def)
    ultimately show ?thesis using d2 [OF w2] by simp
  qed
  from eq unfolded len hex same stable any d2 show ?thesis by blast
qed

text \<open>
  Two proposals of the scenario command at second 100 under a constant digest: one id,
  and the second record is the one stored.
\<close>

theorem confirmation_id_deterministic_witness:
  "new_confirmation_id
      (\<lambda>s. ''e3b0c44298fc1c149afbf4c8996fb92427ae41e4649b934ca495991b7852b855'')
      ''/repo'' 100 [''commit'', ''-am'', ''fix''] = ''e3b0c44298fc1c14''
   \<and> get (files_after (put (files_after
            (put init_store (scenario_record\<lparr>confirmation_id := ''e3b0c44298fc1c14''\<rparr>) 100))
            (scenario_record\<lparr>confirmation_id := ''e3b0c44298fc1c14'', classification := []\<rparr>)
            100))
        ''e3b0c44298fc1c14''
       = Inr (Some (scenario_record\<lparr>confirmation_id := ''e3b0c44298fc1c14'',
                                     classification := []\<rparr>))"
proof -
  let ?h = "\<lambda>s::string. ''e3b0c44298fc1c149afbf4c8996fb92427ae41e4649b934ca495991b7852b855''"
  let ?c1 = "scenario_record\<lparr>confirmation_id := ''e3b0c44298fc1c14''\<rparr>"
  let ?c2 = "scenario_record\<lparr>confirmation_id := ''e3b0c44298fc1c14'', classification := []\<rparr>"
  have i: "new_confirmation_id ?h ''/repo'' 100 [''commit'', ''-am'', ''fix'']
             = ''e3b0c44298fc1c14''"
    by (simp add: new_confirmation_id_def sha256_text_def)
  have l: "length (?h (confirmation_seed ''/repo'' 100 [''commit'', ''-am'', ''fix''])) = 64"
    by simp
  have x: "set (?h (confirmation_seed ''/repo'' 100 [''commit'', ''-am'', ''fix'']))
             \<subseteq> set ''0123456789abcdef''"
    by simp
  have c1: "confirmation_id ?c1
              = new_confirmation_id ?h ''/repo'' 100 [''commit'', ''-am'', ''fix'']"
    unfolding i by simp
  have c2: "confirmation_id ?c2
              = new_confirmation_id ?h ''/repo'' 100 [''commit'', ''-am'', ''fix'']"
    unfolding i by simp
  have j1: "json_dict (classification ?c1)"
    using scenario_json_dict by simp
  have j2: "json_dict (classification ?c2)"
    by (simp add: json_dict_def str_dict_def)
  from confirmation_id_deterministic [OF refl refl refl l x c1 c2, of init_store 100 100] j1 j2
  have "get (files_after (put (files_after (put init_store ?c1 100)) ?c2 100))
          (confirmation_id ?c1) = Inr (Some ?c2)"
    by blast
  with i show ?thesis by simp
qed

end
